theory Spec2Isabelle
  imports Complex_Main
begin

section \<open>The retrieval core of \<open>app/rag_system.py\<close>\<close>

text \<open>
  The class \<open>RAGSystem\<close> keeps a flat L2 vector index and a metadata dictionary with the two
  lists \<open>chunks\<close> and \<open>documents\<close>, and writes both to its data directory after every ingest.
  Mutation is modelled by explicit state passing: an operation takes the object and the data
  directory and returns its outcome together with both as the call leaves them, so that a
  raised exception still shows the state it leaves behind.

  The vectors and distances inside the vector index are modelled as reals. The score that
  \<open>search\<close> computes from a distance is computed in floating-point arithmetic; its rounding
  is a parameter of the model (\<open>float_round\<close>), not interpreted.
\<close>

subsection \<open>Data\<close>

type_synonym vec = "real list"

datatype error = EmbedderFailure | AssertionError | FileNotFoundError | IndexError

text \<open>The dictionary appended to \<open>metadata["chunks"]\<close> (keys \<open>text\<close>, \<open>document_id\<close>,
  \<open>chunk_id\<close>, \<open>position\<close>).\<close>

record chunk =
  chunk_text :: string
  document_id :: string
  chunk_id :: nat
  position :: nat

text \<open>The dictionary appended to \<open>metadata["documents"]\<close> (keys \<open>id\<close>, \<open>summary\<close>,
  \<open>timestamp\<close>, \<open>chunk_ids\<close>).\<close>

record document =
  doc_id :: string
  summary :: string
  timestamp :: string
  chunk_ids :: "nat list"

record metadata =
  chunks :: "chunk list"
  documents :: "document list"

text \<open>The flat index: its dimension and the stored rows, in insertion order.\<close>

record index_flat =
  idx_d :: nat
  xb :: "vec list"

record rag_system =
  index :: index_flat
  metadata :: metadata

text \<open>The two files of the data directory, \<open>faiss_index.bin\<close> and
  \<open>document_metadata.json\<close>; \<open>None\<close> is a file that does not exist.\<close>

record data_dir =
  faiss_index_bin :: "index_flat option"
  document_metadata_json :: "metadata option"

text \<open>One entry of the list that \<open>search\<close> returns.\<close>

record search_result =
  res_text :: string
  res_document_id :: string
  score :: real

text \<open>
  The collaborators the class is constructed with: the sentence-transformer model
  (\<open>model.encode\<close>, which may raise, and \<open>model.get_sentence_embedding_dimension\<close>) and the
  text splitter (\<open>text_splitter.split_text\<close>). They are libraries outside the repository and
  are parameters of the model. The value of \<open>encode\<close> is the list of the rows of the array
  it returns; for an empty list of texts the library returns \<open>np.asarray([])\<close>, the array of
  shape \<open>(0,)\<close>, which the empty list of rows stands for.

  \<open>float_round\<close> is the rounding of the floating-point format in which the score is
  computed (numpy's \<open>float32\<close> or \<open>float64\<close>, by the version of the library): a
  floating-point operation returns the rounded exact result.
\<close>

record collaborators =
  encode :: "string list \<Rightarrow> error + vec list"
  get_sentence_embedding_dimension :: nat
  split_text :: "string \<Rightarrow> string list"
  float_round :: "real \<Rightarrow> real"

subsection \<open>The vector index\<close>

text \<open>
  Modelled from the spec: the vector index (the FAISS library object \<open>IndexFlatL2\<close> with
  \<open>normalize_L2\<close>, \<open>add\<close> and \<open>search\<close>, which is not part of the repository's source).
  Section 4.3: insertion appends rows and rejects a dimension mismatch; search is the exact
  scan returning the \<open>k\<close> nearest rows by squared Euclidean distance, ascending, ties by
  insertion order. The library returns exactly \<open>k\<close> slots per query and fills the slots it
  has no row for with the label \<open>-1\<close>.
\<close>

definition fvec_norm_L2sqr :: "vec \<Rightarrow> real" where
  "fvec_norm_L2sqr x = (\<Sum>a\<leftarrow>x. a * a)"

definition fvec_renorm_L2 :: "vec \<Rightarrow> vec" where
  "fvec_renorm_L2 x =
     (let nr = fvec_norm_L2sqr x
      in if nr > 0 then map (\<lambda>a. a * (1 / sqrt nr)) x else x)"

definition normalize_L2 :: "vec list \<Rightarrow> vec list" where
  "normalize_L2 m = map fvec_renorm_L2 m"

text \<open>
  The call \<open>faiss.normalize_L2(x)\<close> of the Python wrapper. It reads \<open>x.shape[1]\<close> before it
  normalises the rows in place; the array of shape \<open>(0,)\<close> has no second dimension, so for
  it the call raises \<open>IndexError\<close>.
\<close>

definition faiss_normalize_L2 :: "vec list \<Rightarrow> error + vec list" where
  "faiss_normalize_L2 x =
     (case x of [] \<Rightarrow> Inl IndexError | _ # _ \<Rightarrow> Inr (normalize_L2 x))"

definition fvec_L2sqr :: "vec \<Rightarrow> vec \<Rightarrow> real" where
  "fvec_L2sqr x y = (\<Sum>(a, b)\<leftarrow>zip x y. (a - b) * (a - b))"

definition index_add :: "index_flat \<Rightarrow> vec list \<Rightarrow> error + index_flat" where
  "index_add ix vs =
     (if list_all (\<lambda>v. length v = idx_d ix) vs
      then Inr (ix\<lparr>xb := xb ix @ vs\<rparr>)
      else Inl AssertionError)"

definition FLT_MAX :: real where
  "FLT_MAX = 340282346638528859811704183484516925440"

text \<open>Every stored row with its label (its row number) and its distance to the query.\<close>

definition exhaustive_L2sqr :: "vec list \<Rightarrow> vec \<Rightarrow> (int \<times> real) list" where
  "exhaustive_L2sqr ys x = zip (map int [0..<length ys]) (map (fvec_L2sqr x) ys)"

definition knn_L2sqr :: "vec list \<Rightarrow> vec \<Rightarrow> nat \<Rightarrow> (int \<times> real) list" where
  "knn_L2sqr ys x k =
     (let res = take k (sort_key snd (exhaustive_L2sqr ys x))
      in res @ replicate (k - length res) (- 1, FLT_MAX))"

text \<open>One row of (label, distance) slots per query vector: the two arrays \<open>indices\<close> and
  \<open>distances\<close> that the library returns, read at the same position.\<close>

definition index_search ::
  "index_flat \<Rightarrow> vec list \<Rightarrow> nat \<Rightarrow> error + (int \<times> real) list list" where
  "index_search ix xq k =
     (if list_all (\<lambda>x. length x = idx_d ix) xq
      then Inr (map (\<lambda>x. knn_L2sqr (xb ix) x k) xq)
      else Inl AssertionError)"

subsection \<open>Construction and persistence\<close>

text \<open>
  Modelled from the spec: the file primitives (\<open>faiss.write_index\<close>, \<open>faiss.read_index\<close>,
  \<open>json.dump\<close>, \<open>json.load\<close>, library code outside the repository). Section 6: each file
  holds the value written to it and is read back as that value. Failures of the file
  system while writing are not modelled; opening a metadata file that does not exist raises.
\<close>

definition save :: "rag_system \<Rightarrow> data_dir \<Rightarrow> data_dir" where
  "save s fs = fs\<lparr>faiss_index_bin := Some (index s),
                 document_metadata_json := Some (metadata s)\<rparr>"

definition RAGSystem_init :: "collaborators \<Rightarrow> data_dir \<Rightarrow> error + rag_system" where
  "RAGSystem_init env fs =
     (case faiss_index_bin fs of
        Some ix \<Rightarrow>
          (case document_metadata_json fs of
             Some md \<Rightarrow> Inr \<lparr>index = ix, metadata = md\<rparr>
           | None \<Rightarrow> Inl FileNotFoundError)
      | None \<Rightarrow>
          Inr \<lparr>index = \<lparr>idx_d = get_sentence_embedding_dimension env, xb = []\<rparr>,
               metadata = \<lparr>chunks = [], documents = []\<rparr>\<rparr>)"

definition empty_dir :: data_dir where
  "empty_dir = \<lparr>faiss_index_bin = None, document_metadata_json = None\<rparr>"

subsection \<open>Ingestion\<close>

text \<open>The loop \<open>for i, chunk in enumerate(chunks)\<close> of \<open>add_document\<close>, appending one record
  per chunk to the list.\<close>

fun append_chunks :: "string \<Rightarrow> nat \<Rightarrow> nat \<Rightarrow> string list \<Rightarrow> chunk list \<Rightarrow> chunk list" where
  "append_chunks doc start_idx i [] acc = acc"
| "append_chunks doc start_idx i (c # cs) acc =
     append_chunks doc start_idx (Suc i) cs
       (acc @ [\<lparr>chunk_text = c, document_id = doc,
                chunk_id = start_idx + i, position = i\<rparr>])"

text \<open>
  \<open>add_document\<close>. The value of \<open>uuid.uuid4()\<close> and of \<open>datetime.now().isoformat()\<close> are
  inputs of the call. An exception of the embedder, of \<open>faiss.normalize_L2\<close> or of the
  index leaves the function at once, before anything is changed.
\<close>

definition add_document ::
  "collaborators \<Rightarrow> string \<Rightarrow> string \<Rightarrow> string \<Rightarrow> string \<Rightarrow> rag_system \<times> data_dir
     \<Rightarrow> (error + string) \<times> (rag_system \<times> data_dir)" where
  "add_document env uuid4 now document_text summ w =
     (let s = fst w; fs = snd w;
          cks = split_text env document_text
      in case encode env cks of
           Inl e \<Rightarrow> (Inl e, w)
         | Inr chunk_embeddings \<Rightarrow>
             (case faiss_normalize_L2 chunk_embeddings of
                Inl e \<Rightarrow> (Inl e, w)
              | Inr normalized \<Rightarrow>
                  (case index_add (index s) normalized of
                     Inl e \<Rightarrow> (Inl e, w)
                   | Inr ix \<Rightarrow>
                       (let start_idx = length (chunks (metadata s));
                            cs = append_chunks uuid4 start_idx 0 cks (chunks (metadata s));
                            document_metadata =
                              \<lparr>doc_id = uuid4, summary = summ, timestamp = now,
                               chunk_ids = [start_idx..<start_idx + length cks]\<rparr>;
                            s' = \<lparr>index = ix,
                                  metadata = \<lparr>chunks = cs,
                                    documents = documents (metadata s) @ [document_metadata]\<rparr>\<rparr>
                        in (Inr uuid4, (s', save s' fs))))))"

subsection \<open>Search\<close>

text \<open>
  The expression \<open>float(1.0 / (1.0 + distances[0][i]))\<close>: a floating-point addition and a
  floating-point division, each the rounded exact result; the conversion \<open>float\<close> is exact.
\<close>

definition score_of_distance :: "collaborators \<Rightarrow> real \<Rightarrow> real" where
  "score_of_distance env dis = float_round env (1 / float_round env (1 + dis))"

text \<open>The loop \<open>for i, idx in enumerate(indices[0])\<close> over the slots of the first query.\<close>

fun search_loop ::
  "collaborators \<Rightarrow> chunk list \<Rightarrow> (int \<times> real) list \<Rightarrow> search_result list" where
  "search_loop env cs [] = []"
| "search_loop env cs ((idx, dis) # rest) =
     (if idx \<ge> 0 \<and> idx < int (length cs)
      then \<lparr>res_text = chunk_text (cs ! nat idx),
            res_document_id = document_id (cs ! nat idx),
            score = score_of_distance env dis\<rparr> # search_loop env cs rest
      else search_loop env cs rest)"

definition search ::
  "collaborators \<Rightarrow> rag_system \<Rightarrow> string \<Rightarrow> nat \<Rightarrow> error + search_result list" where
  "search env s query k =
     (case encode env [query] of
        Inl e \<Rightarrow> Inl e
      | Inr query_embedding \<Rightarrow>
          (case faiss_normalize_L2 query_embedding of
             Inl e \<Rightarrow> Inl e
           | Inr normalized \<Rightarrow>
               (case index_search (index s) normalized k of
                  Inl e \<Rightarrow> Inl e
                | Inr res \<Rightarrow>
                    (case res of
                       [] \<Rightarrow> Inl IndexError
                     | row # _ \<Rightarrow> Inr (search_loop env (chunks (metadata s)) row)))))"

subsection \<open>Lookups\<close>

fun get_document_by_id_loop :: "document list \<Rightarrow> string \<Rightarrow> document option" where
  "get_document_by_id_loop [] i = None"
| "get_document_by_id_loop (doc # docs) i =
     (if doc_id doc = i then Some doc else get_document_by_id_loop docs i)"

definition get_document_by_id :: "rag_system \<Rightarrow> string \<Rightarrow> document option" where
  "get_document_by_id s i = get_document_by_id_loop (documents (metadata s)) i"

definition get_all_documents :: "rag_system \<Rightarrow> document list" where
  "get_all_documents s = documents (metadata s)"

definition get_document_chunks :: "rag_system \<Rightarrow> string \<Rightarrow> chunk list" where
  "get_document_chunks s i = filter (\<lambda>c. document_id c = i) (chunks (metadata s))"

subsection \<open>Reachable corpora\<close>

text \<open>
  A corpus is reachable when it is constructed over an empty data directory, results from
  any call of \<open>add_document\<close> (successful or not) on a reachable corpus, or is constructed
  again from the data directory a reachable corpus left.
\<close>

inductive reachable :: "collaborators \<Rightarrow> rag_system \<times> data_dir \<Rightarrow> bool"
  for env :: collaborators where
  start: "RAGSystem_init env empty_dir = Inr s \<Longrightarrow> reachable env (s, empty_dir)"
| ingest: "reachable env w \<Longrightarrow> add_document env u now txt summ w = (r, w') \<Longrightarrow> reachable env w'"
| restart: "reachable env (s, fs) \<Longrightarrow> RAGSystem_init env fs = Inr s' \<Longrightarrow> reachable env (s', fs)"

text \<open>The embedder's contract (section 4.2): one vector per input text.\<close>

definition embedder_contract :: "collaborators \<Rightarrow> bool" where
  "embedder_contract env = (\<forall>ts vs. encode env ts = Inr vs \<longrightarrow> length vs = length ts)"

text \<open>The cross-store invariant: chunk ids are the positions in the chunk list, and the
  index holds one row per chunk record.\<close>

definition chunk_ids_dense :: "rag_system \<Rightarrow> bool" where
  "chunk_ids_dense s =
     (map chunk_id (chunks (metadata s)) = [0..<length (chunks (metadata s))]
      \<and> length (xb (index s)) = length (chunks (metadata s)))"

text \<open>
  A stored row is normalised when its squared norm is 1; the zero vector, which
  \<open>normalize_L2\<close> leaves alone, is the one exception.
\<close>

definition unit_or_zero :: "vec \<Rightarrow> bool" where
  "unit_or_zero r = (fvec_norm_L2sqr r = 1 \<or> fvec_norm_L2sqr r = 0)"

text \<open>
  The data directory agrees with the object: either nothing was ever saved and the object
  is the freshly constructed one, or both files hold the object's two parts.
\<close>

definition disk_synced :: "collaborators \<Rightarrow> rag_system \<times> data_dir \<Rightarrow> bool" where
  "disk_synced env w =
     (case faiss_index_bin (snd w) of
        None \<Rightarrow> RAGSystem_init env empty_dir = Inr (fst w)
      | Some ix \<Rightarrow> ix = index (fst w) \<and> document_metadata_json (snd w) = Some (metadata (fst w)))"

subsection \<open>Concrete collaborators and corpora\<close>

text \<open>
  A small embedder and splitter to run the operations on: the splitter makes one chunk per
  character, the embedder maps the text \<open>a\<close> to one unit vector and every other text to the
  other one; its arithmetic is exact. \<open>failing_env\<close> is the same with an embedder that
  always raises.
  \<open>example_system\<close> is the corpus after ingesting the text \<open>ab\<close>, \<open>tie_system\<close> the one
  after ingesting \<open>bb\<close> (two equal rows), and \<open>orphan_row_system\<close> an inconsistent pair
  of stores: one index row and no chunk record.
\<close>

definition example_env :: collaborators where
  "example_env =
     \<lparr>encode = (\<lambda>ts. Inr (map (\<lambda>t. if t = ''a'' then [1, 0] else [0, 1]) ts)),
      get_sentence_embedding_dimension = 2,
      split_text = (\<lambda>t. map (\<lambda>c. [c]) t),
      float_round = (\<lambda>x. x)\<rparr>"

definition failing_env :: collaborators where
  "failing_env =
     \<lparr>encode = (\<lambda>ts. Inl EmbedderFailure),
      get_sentence_embedding_dimension = 2,
      split_text = (\<lambda>t. map (\<lambda>c. [c]) t),
      float_round = (\<lambda>x. x)\<rparr>"

definition fresh_system :: rag_system where
  "fresh_system = \<lparr>index = \<lparr>idx_d = 2, xb = []\<rparr>, metadata = \<lparr>chunks = [], documents = []\<rparr>\<rparr>"

definition example_system :: rag_system where
  "example_system =
     \<lparr>index = \<lparr>idx_d = 2, xb = [[1, 0], [0, 1]]\<rparr>,
      metadata = \<lparr>chunks =
          [\<lparr>chunk_text = ''a'', document_id = ''doc-1'', chunk_id = 0, position = 0\<rparr>,
           \<lparr>chunk_text = ''b'', document_id = ''doc-1'', chunk_id = 1, position = 1\<rparr>],
          documents = [\<lparr>doc_id = ''doc-1'', summary = ''two chunks'', timestamp = ''2025-01-01'',
                        chunk_ids = [0, 1]\<rparr>]\<rparr>\<rparr>"

definition tie_system :: rag_system where
  "tie_system =
     \<lparr>index = \<lparr>idx_d = 2, xb = [[0, 1], [0, 1]]\<rparr>,
      metadata = \<lparr>chunks =
          [\<lparr>chunk_text = ''b'', document_id = ''doc-2'', chunk_id = 0, position = 0\<rparr>,
           \<lparr>chunk_text = ''b'', document_id = ''doc-2'', chunk_id = 1, position = 1\<rparr>],
          documents = [\<lparr>doc_id = ''doc-2'', summary = ''twice b'', timestamp = ''2025-01-02'',
                        chunk_ids = [0, 1]\<rparr>]\<rparr>\<rparr>"

definition orphan_row_system :: rag_system where
  "orphan_row_system =
     \<lparr>index = \<lparr>idx_d = 2, xb = [[1, 0]]\<rparr>,
      metadata = \<lparr>chunks = [], documents = []\<rparr>\<rparr>"

section \<open>Properties\<close>

subsection \<open>Ingestion step by step\<close>

lemma append_chunks_eq:
  "append_chunks doc start_idx i cs acc =
     acc @ map (\<lambda>(j, c). \<lparr>chunk_text = c, document_id = doc,
                          chunk_id = start_idx + j, position = j\<rparr>) (enumerate i cs)"
  by (induction cs arbitrary: i acc) simp_all

lemma add_document_failure:
  assumes "add_document env u now txt summ w = (Inl e, w')"
  shows "w' = w"
  using assms
  by (simp add: add_document_def Let_def split: sum.splits)

lemma add_document_success:
  assumes "add_document env u now txt summ (s, fs) = (Inr i, (s', fs'))"
  shows "\<exists>vs. encode env (split_text env txt) = Inr vs
            \<and> list_all (\<lambda>v. length v = idx_d (index s)) (normalize_L2 vs)
            \<and> i = u
            \<and> index s' = (index s)\<lparr>xb := xb (index s) @ normalize_L2 vs\<rparr>
            \<and> chunks (metadata s') = chunks (metadata s) @
                 map (\<lambda>(j, c). \<lparr>chunk_text = c, document_id = u,
                        chunk_id = length (chunks (metadata s)) + j, position = j\<rparr>)
                   (enumerate 0 (split_text env txt))
            \<and> documents (metadata s') = documents (metadata s) @
                 [\<lparr>doc_id = u, summary = summ, timestamp = now,
                   chunk_ids = [length (chunks (metadata s))..<
                                length (chunks (metadata s)) + length (split_text env txt)]\<rparr>]
            \<and> fs' = save s' fs"
proof (cases "encode env (split_text env txt)")
  case (Inl e)
  with assms show ?thesis by (simp add: add_document_def Let_def)
next
  case (Inr vs)
  show ?thesis
  proof (cases vs)
    case Nil
    with Inr assms show ?thesis
      by (simp add: add_document_def Let_def faiss_normalize_L2_def)
  next
    case (Cons v vs')
    then have norm: "faiss_normalize_L2 vs = Inr (normalize_L2 vs)"
      by (simp add: faiss_normalize_L2_def)
    show ?thesis
    proof (cases "list_all (\<lambda>v. length v = idx_d (index s)) (normalize_L2 vs)")
      case False
      with Inr norm assms show ?thesis by (simp add: add_document_def Let_def index_add_def)
    next
      case True
      with Inr norm assms show ?thesis
        by (clarsimp simp: add_document_def Let_def index_add_def append_chunks_eq)
    qed
  qed
qed

lemma map_chunk_id_new:
  "map chunk_id (map (\<lambda>(j, c). \<lparr>chunk_text = c, document_id = u,
                        chunk_id = n + j, position = j\<rparr>) (enumerate i cs))
   = [n + i..<n + i + length cs]"
proof (induction cs arbitrary: i)
  case Nil
  then show ?case by simp
next
  case (Cons c cs)
  have "[n + i..<n + i + length (c # cs)] = (n + i) # [n + Suc i..<n + Suc i + length cs]"
    by (simp add: upt_conv_Cons del: upt_Suc)
  with Cons.IH[of "Suc i"] show ?case by simp
qed

lemma map_position_new:
  "map position (map (\<lambda>(j, c). \<lparr>chunk_text = c, document_id = u,
                        chunk_id = n + j, position = j\<rparr>) (enumerate i cs))
   = [i..<i + length cs]"
proof (induction cs arbitrary: i)
  case Nil
  then show ?case by simp
next
  case (Cons c cs)
  have "[i..<i + length (c # cs)] = i # [Suc i..<Suc i + length cs]"
    by (simp add: upt_conv_Cons del: upt_Suc)
  with Cons.IH[of "Suc i"] show ?case by simp
qed

lemma chunk_ids_dense_add_document:
  assumes step: "add_document env u now txt summ (s, fs) = (r, (s', fs'))"
    and emb: "embedder_contract env" and dense: "chunk_ids_dense s"
  shows "chunk_ids_dense s'"
proof (cases r)
  case (Inl e)
  from step[unfolded Inl] have "(s', fs') = (s, fs)" by (rule add_document_failure)
  with dense show ?thesis by simp
next
  case (Inr i)
  from add_document_success[OF step[unfolded Inr]] obtain vs where
    enc: "encode env (split_text env txt) = Inr vs"
    and ix: "index s' = (index s)\<lparr>xb := xb (index s) @ normalize_L2 vs\<rparr>"
    and cs: "chunks (metadata s') = chunks (metadata s) @
                 map (\<lambda>(j, c). \<lparr>chunk_text = c, document_id = u,
                        chunk_id = length (chunks (metadata s)) + j, position = j\<rparr>)
                   (enumerate 0 (split_text env txt))"
    by blast
  from enc emb have len: "length vs = length (split_text env txt)"
    by (simp add: embedder_contract_def)
  let ?n = "length (chunks (metadata s))" and ?m = "length (split_text env txt)"
  have split: "[0..<?n + ?m] = [0..<?n] @ [?n..<?n + ?m]"
    by (rule upt_add_eq_append) simp
  have new: "map chunk_id (map (\<lambda>(j, c). \<lparr>chunk_text = c, document_id = u,
                        chunk_id = ?n + j, position = j\<rparr>) (enumerate 0 (split_text env txt)))
             = [?n..<?n + ?m]"
    using map_chunk_id_new[of u ?n 0 "split_text env txt"] by simp
  have old: "map chunk_id (chunks (metadata s)) = [0..<?n]"
    using dense unfolding chunk_ids_dense_def by (rule conjunct1)
  have "map chunk_id (chunks (metadata s')) = [0..<?n] @ [?n..<?n + ?m]"
    unfolding cs map_append old new by (rule refl)
  then have ids: "map chunk_id (chunks (metadata s')) = [0..<?n + ?m]"
    unfolding split .
  have rows0: "length (xb (index s)) = ?n"
    using dense unfolding chunk_ids_dense_def by (rule conjunct2)
  have rows: "length (xb (index s')) = ?n + ?m"
    unfolding ix normalize_L2_def by (simp add: rows0 len)
  have lens: "length (chunks (metadata s')) = ?n + ?m"
    unfolding cs by simp
  show ?thesis
    unfolding chunk_ids_dense_def lens using ids rows by (rule conjI)
qed

lemma disk_synced_restart:
  assumes "disk_synced env (s, fs)" and "RAGSystem_init env fs = Inr s'"
  shows "s' = s"
proof (cases "faiss_index_bin fs")
  case None
  with assms show ?thesis
    by (simp add: disk_synced_def RAGSystem_init_def empty_dir_def)
next
  case (Some ix)
  with assms show ?thesis
    by (cases s) (auto simp: disk_synced_def RAGSystem_init_def)
qed

lemma reachable_disk_synced: "reachable env w \<Longrightarrow> disk_synced env w"
proof (induction rule: reachable.induct)
  case (start s)
  then show ?case by (simp add: disk_synced_def empty_dir_def)
next
  case (ingest w u now dtext summ r w')
  obtain s fs where w: "w = (s, fs)" by (cases w)
  obtain s' fs' where w': "w' = (s', fs')" by (cases "w'")
  show ?case
  proof (cases r)
    case (Inl e)
    from ingest.hyps(2)[unfolded Inl] have "w' = w" by (rule add_document_failure)
    with ingest.IH show ?thesis by simp
  next
    case (Inr i)
    from add_document_success[OF ingest.hyps(2)[unfolded w w' Inr]]
    have "fs' = save s' fs" by blast
    then show ?thesis by (simp add: w' disk_synced_def save_def)
  qed
next
  case (restart s fs s')
  with disk_synced_restart have "s' = s" by blast
  with restart.IH show ?case by simp
qed

lemma reachable_chunk_ids_dense:
  "reachable env w \<Longrightarrow> embedder_contract env \<Longrightarrow> chunk_ids_dense (fst w)"
proof (induction rule: reachable.induct)
  case (start s)
  then show ?case by (auto simp: RAGSystem_init_def empty_dir_def chunk_ids_dense_def)
next
  case (ingest w u now dtext summ r w')
  obtain s fs where w: "w = (s, fs)" by (cases w)
  obtain s' fs' where w': "w' = (s', fs')" by (cases "w'")
  from ingest.hyps(2) ingest.IH ingest.prems show ?case
    unfolding w w' using chunk_ids_dense_add_document[of env u now dtext summ s fs r s' fs'] by simp
next
  case (restart s fs s')
  from disk_synced_restart[OF reachable_disk_synced[OF restart.hyps(1)] restart.hyps(2)]
  have "s' = s" .
  with restart show ?case by simp
qed

lemma filter_new_chunks_same:
  "filter (\<lambda>c. document_id c = u)
     (map (\<lambda>(j, c). \<lparr>chunk_text = c, document_id = u,
                        chunk_id = n + j, position = j\<rparr>) xs)
   = map (\<lambda>(j, c). \<lparr>chunk_text = c, document_id = u,
                        chunk_id = n + j, position = j\<rparr>) xs"
  by (induction xs) auto

lemma filter_new_chunks_other:
  "u \<noteq> i \<Longrightarrow>
   filter (\<lambda>c. document_id c = i)
     (map (\<lambda>(j, c). \<lparr>chunk_text = c, document_id = u,
                        chunk_id = n + j, position = j\<rparr>) xs) = []"
  by (induction xs) auto

lemma filter_unknown_id:
  "i \<notin> document_id ` set cs \<Longrightarrow> filter (\<lambda>c. document_id c = i) cs = []"
  by (induction cs) auto

lemma get_document_chunks_later_ingest:
  assumes "add_document env u now dtext summ (s, fs) = (r, (s', fs'))" and "u \<noteq> i"
  shows "get_document_chunks s' i = get_document_chunks s i"
proof (cases r)
  case (Inl e)
  from assms(1)[unfolded Inl] have "(s', fs') = (s, fs)" by (rule add_document_failure)
  then show ?thesis by simp
next
  case (Inr j)
  from add_document_success[OF assms(1)[unfolded Inr]] obtain vs where
    cs: "chunks (metadata s') = chunks (metadata s) @
                 map (\<lambda>(j, c). \<lparr>chunk_text = c, document_id = u,
                        chunk_id = length (chunks (metadata s)) + j, position = j\<rparr>)
                   (enumerate 0 (split_text env dtext))"
    by blast
  show ?thesis
    unfolding get_document_chunks_def cs filter_append
    by (simp add: filter_new_chunks_other[OF assms(2)])
qed

lemma init_after_save: "RAGSystem_init env (save s fs) = Inr s"
  by (cases s) (simp add: RAGSystem_init_def save_def)

subsection \<open>Normalisation and distances\<close>

lemma length_renorm: "length (fvec_renorm_L2 v) = length v"
  by (simp add: fvec_renorm_L2_def Let_def)

lemma norm_scaled: "fvec_norm_L2sqr (map (\<lambda>a. a * c) x) = c * c * fvec_norm_L2sqr x"
  unfolding fvec_norm_L2sqr_def by (induction x) (simp_all add: algebra_simps)

lemma norm_nonneg: "0 \<le> fvec_norm_L2sqr x"
  unfolding fvec_norm_L2sqr_def by (rule sum_list_nonneg) auto

lemma renorm_unit_or_zero: "unit_or_zero (fvec_renorm_L2 x)"
proof (cases "fvec_norm_L2sqr x > 0")
  case False
  with norm_nonneg[of x] have "fvec_norm_L2sqr x = 0" by simp
  then show ?thesis by (simp add: fvec_renorm_L2_def Let_def unit_or_zero_def)
next
  case True
  define nr where "nr = fvec_norm_L2sqr x"
  define c where "c = 1 / sqrt nr"
  have pos: "nr > 0" using True by (simp add: nr_def)
  have y: "fvec_renorm_L2 x = map (\<lambda>a. a * c) x"
    using True unfolding c_def nr_def by (simp add: fvec_renorm_L2_def Let_def)
  have "c * c = 1 / nr"
    unfolding c_def using pos by (simp add: real_sqrt_mult_self)
  then have "fvec_norm_L2sqr (map (\<lambda>a. a * c) x) = 1"
    unfolding norm_scaled using pos by (simp add: nr_def)
  then show ?thesis unfolding y unit_or_zero_def by simp
qed

lemma reachable_rows_normalized:
  "reachable env w \<Longrightarrow> list_all unit_or_zero (xb (index (fst w)))"
proof (induction rule: reachable.induct)
  case (start s)
  then show ?case by (auto simp: RAGSystem_init_def empty_dir_def)
next
  case (ingest w u now dtext summ r w')
  obtain s fs where w: "w = (s, fs)" by (cases w)
  obtain s' fs' where w': "w' = (s', fs')" by (cases "w'")
  show ?case
  proof (cases r)
    case (Inl e)
    from ingest.hyps(2)[unfolded Inl] have "w' = w" by (rule add_document_failure)
    with ingest.IH show ?thesis by simp
  next
    case (Inr i)
    from add_document_success[OF ingest.hyps(2)[unfolded w w' Inr]] obtain vs where
      "index s' = (index s)\<lparr>xb := xb (index s) @ normalize_L2 vs\<rparr>" by blast
    then have "xb (index s') = xb (index s) @ map fvec_renorm_L2 vs"
      by (simp add: normalize_L2_def)
    moreover have "list_all unit_or_zero (map fvec_renorm_L2 vs)"
      by (simp add: list_all_iff renorm_unit_or_zero)
    ultimately show ?thesis using ingest.IH by (simp add: w w')
  qed
next
  case (restart s fs s')
  from disk_synced_restart[OF reachable_disk_synced[OF restart.hyps(1)] restart.hyps(2)]
  have "s' = s" .
  with restart show ?case by simp
qed

subsection \<open>The exact scan\<close>

lemma exhaustive_eq_map:
  "exhaustive_L2sqr ys x = map (\<lambda>m. (int m, fvec_L2sqr x (ys ! m))) [0..<length ys]"
  unfolding exhaustive_L2sqr_def by (rule nth_equalityI) simp_all

lemma in_exhaustive:
  "(i, dd) \<in> set (exhaustive_L2sqr ys x) \<longleftrightarrow>
     (\<exists>m<length ys. i = int m \<and> dd = fvec_L2sqr x (ys ! m))"
  unfolding exhaustive_eq_map by auto

lemma length_exhaustive: "length (exhaustive_L2sqr ys x) = length ys"
  by (simp add: exhaustive_L2sqr_def)

lemma nearest_subset:
  assumes "p \<in> set (take k (sort_key snd (exhaustive_L2sqr ys x)))"
  shows "\<exists>m<length ys. p = (int m, fvec_L2sqr x (ys ! m))"
proof -
  from assms have "p \<in> set (sort_key snd (exhaustive_L2sqr ys x))" by (rule in_set_takeD)
  then have "(fst p, snd p) \<in> set (exhaustive_L2sqr ys x)" by simp
  then obtain m where "m < length ys" "fst p = int m" "snd p = fvec_L2sqr x (ys ! m)"
    unfolding in_exhaustive by blast
  then show ?thesis by (cases p) auto
qed

lemma filter_knn:
  assumes "length cs = length ys"
  shows "filter (\<lambda>(idx, dis). 0 \<le> idx \<and> idx < int (length cs)) (knn_L2sqr ys x k)
         = take k (sort_key snd (exhaustive_L2sqr ys x))"
proof -
  let ?L = "take k (sort_key snd (exhaustive_L2sqr ys x))"
  have "\<forall>p\<in>set ?L. (case p of (idx, dis) \<Rightarrow> 0 \<le> idx \<and> idx < int (length cs))"
  proof
    fix p assume "p \<in> set ?L"
    from nearest_subset[OF this] obtain m where "m < length ys" "p = (int m, fvec_L2sqr x (ys ! m))"
      by blast
    then show "case p of (idx, dis) \<Rightarrow> 0 \<le> idx \<and> idx < int (length cs)"
      using assms by simp
  qed
  then have "filter (\<lambda>(idx, dis). 0 \<le> idx \<and> idx < int (length cs)) ?L = ?L"
    by (simp only: filter_id_conv)
  then show ?thesis by (simp add: knn_L2sqr_def Let_def)
qed

lemma sorted_nearest: "sorted (map snd (take k (sort_key snd xs)))"
proof -
  have "sorted (take k (map snd (sort_key snd xs)))"
    by (rule sorted_wrt_take) (rule sorted_sort_key)
  then show ?thesis by (simp only: take_map)
qed

lemma distinct_map_insort_key:
  "distinct (map f (insort_key g x xs)) \<longleftrightarrow> f x \<notin> f ` set xs \<and> distinct (map f xs)"
  by (induction xs) (auto simp: set_insort_key)

lemma distinct_map_sort_key:
  "distinct (map f (sort_key g xs)) \<longleftrightarrow> distinct (map f xs)"
  by (induction xs) (simp_all add: distinct_map_insort_key)

lemma distinct_labels: "distinct (map fst (take k (sort_key snd (exhaustive_L2sqr ys x))))"
proof -
  have "map fst (exhaustive_L2sqr ys x) = map int [0..<length ys]"
    by (simp add: exhaustive_L2sqr_def)
  then have "distinct (map fst (exhaustive_L2sqr ys x))"
    by (simp add: distinct_map)
  then have "distinct (map fst (sort_key snd (exhaustive_L2sqr ys x)))"
    by (simp only: distinct_map_sort_key)
  then have "distinct (take k (map fst (sort_key snd (exhaustive_L2sqr ys x))))"
    by (rule distinct_take)
  then show ?thesis by (simp only: take_map)
qed

lemma nearest_bound:
  assumes j: "j < length ys"
    and out: "int j \<notin> fst ` set (take k (sort_key snd (exhaustive_L2sqr ys x)))"
    and p: "p \<in> set (take k (sort_key snd (exhaustive_L2sqr ys x)))"
  shows "snd p \<le> fvec_L2sqr x (ys ! j)"
proof -
  define L where "L = sort_key snd (exhaustive_L2sqr ys x)"
  define q where "q = (int j, fvec_L2sqr x (ys ! j))"
  from j have "q \<in> set (exhaustive_L2sqr ys x)" unfolding q_def in_exhaustive by blast
  then have "q \<in> set L" by (simp add: L_def)
  then have "q \<in> set (take k L @ drop k L)" by (simp only: append_take_drop_id)
  then have "q \<in> set (take k L) \<or> q \<in> set (drop k L)" by (simp only: set_append Un_iff)
  moreover have "q \<notin> set (take k L)"
  proof
    assume "q \<in> set (take k L)"
    then have "fst q \<in> fst ` set (take k L)" by (rule imageI)
    with out show False by (simp add: q_def L_def)
  qed
  ultimately have q: "q \<in> set (drop k L)" by blast
  have "sorted (map snd L)" unfolding L_def by (rule sorted_sort_key)
  then have "sorted (map snd (take k L @ drop k L))" by (simp only: append_take_drop_id)
  then have "sorted (map snd (take k L) @ map snd (drop k L))" by (simp only: map_append)
  then have "\<forall>a\<in>set (map snd (take k L)). \<forall>b\<in>set (map snd (drop k L)). a \<le> b"
    unfolding sorted_append by blast
  then have "\<forall>a\<in>set (take k L). \<forall>b\<in>set (drop k L). snd a \<le> snd b"
    by (simp only: set_map ball_simps)
  with p q have "snd p \<le> snd q" unfolding L_def by blast
  then show ?thesis by (simp add: q_def)
qed

lemma insort_by_distance_then_label:
  assumes "sorted_wrt (\<lambda>a b. snd a < snd b \<or> (snd a = snd b \<and> fst a < fst b)) ys"
    and "\<forall>y\<in>set ys. fst x < fst y"
  shows "sorted_wrt (\<lambda>a b. snd a < snd b \<or> (snd a = snd b \<and> fst a < fst b))
           (insort_key snd x (ys :: (int \<times> real) list))"
  using assms
proof (induction ys)
  case Nil
  then show ?case by simp
next
  case (Cons y ys)
  show ?case
  proof (cases "snd x \<le> snd y")
    case True
    have "\<forall>z\<in>set (y # ys). snd x < snd z \<or> (snd x = snd z \<and> fst x < fst z)"
    proof
      fix z assume z: "z \<in> set (y # ys)"
      have "snd y \<le> snd z" using z Cons.prems(1) by auto
      with True have "snd x \<le> snd z" by simp
      moreover from z Cons.prems(2) have "fst x < fst z" by blast
      ultimately show "snd x < snd z \<or> (snd x = snd z \<and> fst x < fst z)" by auto
    qed
    with True Cons.prems(1) show ?thesis by simp
  next
    case False
    from Cons.prems have IH: "sorted_wrt (\<lambda>a b. snd a < snd b \<or> (snd a = snd b \<and> fst a < fst b))
           (insort_key snd x ys)"
      by (intro Cons.IH) auto
    from False Cons.prems(1) IH show ?thesis by (auto simp: set_insort_key)
  qed
qed

lemma sort_by_distance_then_label:
  assumes "sorted_wrt (<) (map fst (xs :: (int \<times> real) list))"
  shows "sorted_wrt (\<lambda>a b. snd a < snd b \<or> (snd a = snd b \<and> fst a < fst b))
           (sort_key snd xs)"
  using assms
proof (induction xs)
  case Nil
  then show ?case by simp
next
  case (Cons x xs)
  from Cons.prems have rest: "sorted_wrt (<) (map fst xs)"
    and lt: "\<forall>y\<in>set xs. fst x < fst y" by auto
  from lt have "\<forall>y\<in>set (sort_key snd xs). fst x < fst y" by simp
  with Cons.IH[OF rest] show ?case
    by (simp add: insort_by_distance_then_label)
qed

lemma labels_ascending: "sorted_wrt (<) (map fst (exhaustive_L2sqr ys x))"
proof -
  have "map fst (exhaustive_L2sqr ys x) = map int [0..<length ys]"
    by (simp add: exhaustive_L2sqr_def)
  then show ?thesis by (simp add: sorted_wrt_map)
qed

lemma tie_earlier_row_first:
  assumes ij: "i < j" and j: "j < length ys"
    and tie: "fvec_L2sqr x (ys ! i) = fvec_L2sqr x (ys ! j)"
    and pj: "pj < length (take k (sort_key snd (exhaustive_L2sqr ys x)))"
    and at: "fst (take k (sort_key snd (exhaustive_L2sqr ys x)) ! pj) = int j"
  shows "\<exists>pi<pj. fst (take k (sort_key snd (exhaustive_L2sqr ys x)) ! pi) = int i"
proof -
  define L where "L = sort_key snd (exhaustive_L2sqr ys x)"
  define dd where "dd = fvec_L2sqr x (ys ! j)"
  have lex: "sorted_wrt (\<lambda>a b. snd a < snd b \<or> (snd a = snd b \<and> fst a < fst b)) L"
    unfolding L_def by (rule sort_by_distance_then_label[OF labels_ascending])
  have pj': "pj < length (take k L)" using pj by (simp only: L_def)
  have at': "fst (take k L ! pj) = int j" using at by (simp only: L_def)
  from pj' have pjk: "pj < k" and pjL: "pj < length L" by simp_all
  from pjk have Lpj: "take k L ! pj = L ! pj" by simp
  have "take k L ! pj \<in> set (take k L)" using pj' by (rule nth_mem)
  then have "take k L ! pj \<in> set (take k (sort_key snd (exhaustive_L2sqr ys x)))"
    by (simp only: L_def)
  from nearest_subset[OF this] obtain m where
    m: "m < length ys" "take k L ! pj = (int m, fvec_L2sqr x (ys ! m))"
    unfolding L_def by blast
  from at' m(2) have "m = j" by simp
  with m(2) Lpj have Lj: "L ! pj = (int j, dd)" by (simp add: dd_def)
  from ij j have "i < length ys" by simp
  then have "(int i, fvec_L2sqr x (ys ! i)) \<in> set (exhaustive_L2sqr ys x)"
    unfolding in_exhaustive by blast
  then have "(int i, dd) \<in> set L" by (simp add: L_def dd_def tie)
  then obtain p where p: "p < length L" "L ! p = (int i, dd)"
    unfolding in_set_conv_nth by blast
  have ne: "p \<noteq> pj"
  proof
    assume "p = pj"
    with p(2) Lj have "int i = int j" by simp
    with ij show False by simp
  qed
  have "\<not> pj < p"
  proof
    assume "pj < p"
    with lex p(1) have "snd (L ! pj) < snd (L ! p) \<or> (snd (L ! pj) = snd (L ! p) \<and> fst (L ! pj) < fst (L ! p))"
      unfolding sorted_wrt_iff_nth_less by blast
    then show False unfolding p(2) Lj using ij by simp
  qed
  with ne have ppj: "p < pj" by simp
  with pjk have "take k L ! p = L ! p" by simp
  with p(2) have "fst (take k L ! p) = int i" by simp
  with ppj have "\<exists>pi<pj. fst (take k L ! pi) = int i" by blast
  then show ?thesis by (simp only: L_def)
qed

subsection \<open>Search\<close>

lemma search_unfold:
  assumes "encode env [query] = Inr [v]" and "length v = idx_d (index s)"
  shows "search env s query k =
           Inr (search_loop env (chunks (metadata s))
                  (knn_L2sqr (xb (index s)) (fvec_renorm_L2 v) k))"
  using assms
  by (simp add: search_def faiss_normalize_L2_def index_search_def normalize_L2_def length_renorm)

lemma index_search_single:
  assumes "length v = idx_d ix"
  shows "index_search ix (normalize_L2 [v]) k = Inr [knn_L2sqr (xb ix) (fvec_renorm_L2 v) k]"
  using assms by (simp add: index_search_def normalize_L2_def length_renorm)

lemma knn_padding:
  "knn_L2sqr ys x k =
     take k (sort_key snd (exhaustive_L2sqr ys x))
     @ replicate (k - length (take k (sort_key snd (exhaustive_L2sqr ys x)))) (- 1, FLT_MAX)"
  by (simp only: knn_L2sqr_def Let_def)

lemma search_loop_eq:
  "search_loop env cs row =
     map (\<lambda>(idx, dis). \<lparr>res_text = chunk_text (cs ! nat idx),
                          res_document_id = document_id (cs ! nat idx),
                          score = score_of_distance env dis\<rparr>)
       (filter (\<lambda>(idx, dis). 0 \<le> idx \<and> idx < int (length cs)) row)"
  by (induction env cs row rule: search_loop.induct) simp_all

lemma search_consistent:
  assumes q: "encode env [query] = Inr [v]" and dim: "length v = idx_d (index s)"
    and len: "length (chunks (metadata s)) = length (xb (index s))"
  shows "search env s query k =
     Inr (map (\<lambda>(idx, dis). \<lparr>res_text = chunk_text (chunks (metadata s) ! nat idx),
                          res_document_id = document_id (chunks (metadata s) ! nat idx),
                          score = score_of_distance env dis\<rparr>)
            (take k (sort_key snd (exhaustive_L2sqr (xb (index s)) (fvec_renorm_L2 v)))))"
  unfolding search_unfold[OF q dim] search_loop_eq filter_knn[OF len] by (rule refl)

subsection \<open>The concrete corpora\<close>

lemma renorm_unit [simp]:
  "fvec_renorm_L2 [1, 0] = [1, 0]" "fvec_renorm_L2 [0, 1] = [0, 1]"
  by (simp_all add: fvec_renorm_L2_def fvec_norm_L2sqr_def)

lemma example_init: "RAGSystem_init example_env empty_dir = Inr fresh_system"
  by (simp add: RAGSystem_init_def example_env_def empty_dir_def fresh_system_def)

lemma example_add:
  "add_document example_env ''doc-1'' ''2025-01-01'' ''ab'' ''two chunks'' (fresh_system, empty_dir)
   = (Inr ''doc-1'', (example_system, save example_system empty_dir))"
  by (simp add: add_document_def example_env_def fresh_system_def index_add_def
      faiss_normalize_L2_def normalize_L2_def Let_def example_system_def upt_rec)

lemma tie_add:
  "add_document example_env ''doc-2'' ''2025-01-02'' ''bb'' ''twice b'' (fresh_system, empty_dir)
   = (Inr ''doc-2'', (tie_system, save tie_system empty_dir))"
  by (simp add: add_document_def example_env_def fresh_system_def index_add_def
      faiss_normalize_L2_def normalize_L2_def Let_def tie_system_def upt_rec)

lemma example_contract: "embedder_contract example_env"
  by (simp add: embedder_contract_def example_env_def)

lemma example_query: "encode example_env [''a''] = Inr [[1, 0]]"
  by (simp add: example_env_def)

lemma example_reachable_system:
  "reachable example_env (example_system, save example_system empty_dir)"
  by (rule reachable.ingest[OF reachable.start[OF example_init] example_add])

lemma tie_reachable:
  "reachable example_env (tie_system, save tie_system empty_dir)"
  by (rule reachable.ingest[OF reachable.start[OF example_init] tie_add])

section \<open>The claims\<close>

text \<open>
  Claim C1. In every reachable corpus, with an embedder that returns one vector per text,
  the chunk ids stored in \<open>metadata["chunks"]\<close> are \<open>0, 1, ..., n - 1\<close> in list order and the
  index holds exactly \<open>n\<close> rows, so each chunk id is the row number of its embedding. Every
  call of \<open>add_document\<close> keeps this, and a successful one appends the rows of the
  normalised embeddings and, in the same order, the chunk records numbered from the old
  number of chunks.
\<close>

theorem chunk_id_equals_row_index:
  assumes reach: "reachable env (s, fs)" and emb: "embedder_contract env"
  shows "chunk_ids_dense s \<and>
         (\<forall>u now dtext summ r s' fs'.
            add_document env u now dtext summ (s, fs) = (r, (s', fs')) \<longrightarrow>
              chunk_ids_dense s' \<and>
              (\<forall>i. r = Inr i \<longrightarrow>
                 (\<exists>vs. encode env (split_text env dtext) = Inr vs
                    \<and> length vs = length (split_text env dtext)
                    \<and> xb (index s') = xb (index s) @ normalize_L2 vs
                    \<and> chunks (metadata s') = chunks (metadata s) @
                         map (\<lambda>(j, c). \<lparr>chunk_text = c, document_id = u,
                                chunk_id = length (chunks (metadata s)) + j, position = j\<rparr>)
                           (enumerate 0 (split_text env dtext)))))"
proof (intro conjI allI impI)
  from reachable_chunk_ids_dense[OF reach emb] show dense: "chunk_ids_dense s" by simp
  fix u now dtext summ r s' fs'
  assume step: "add_document env u now dtext summ (s, fs) = (r, (s', fs'))"
  from chunk_ids_dense_add_document[OF step emb dense] show "chunk_ids_dense s'" .
  fix i assume r: "r = Inr i"
  from add_document_success[OF step[unfolded r]] obtain vs where
    enc: "encode env (split_text env dtext) = Inr vs"
    and ix: "index s' = (index s)\<lparr>xb := xb (index s) @ normalize_L2 vs\<rparr>"
    and cs: "chunks (metadata s') = chunks (metadata s) @
                 map (\<lambda>(j, c). \<lparr>chunk_text = c, document_id = u,
                        chunk_id = length (chunks (metadata s)) + j, position = j\<rparr>)
                   (enumerate 0 (split_text env dtext))"
    by blast
  from enc emb have len: "length vs = length (split_text env dtext)"
    by (simp add: embedder_contract_def)
  from ix have rows: "xb (index s') = xb (index s) @ normalize_L2 vs" by simp
  from enc len rows cs
  show "\<exists>vs. encode env (split_text env dtext) = Inr vs
          \<and> length vs = length (split_text env dtext)
          \<and> xb (index s') = xb (index s) @ normalize_L2 vs
          \<and> chunks (metadata s') = chunks (metadata s) @
               map (\<lambda>(j, c). \<lparr>chunk_text = c, document_id = u,
                      chunk_id = length (chunks (metadata s)) + j, position = j\<rparr>)
                 (enumerate 0 (split_text env dtext))"
    by blast
qed

theorem chunk_id_equals_row_index_witness:
  "reachable example_env (example_system, save example_system empty_dir)
   \<and> embedder_contract example_env
   \<and> map chunk_id (chunks (metadata example_system)) = [0, 1]
   \<and> length (xb (index example_system)) = 2"
proof -
  have r: "reachable example_env (example_system, save example_system empty_dir)"
    by (rule reachable.ingest[OF reachable.start[OF example_init] example_add])
  from chunk_id_equals_row_index[OF r example_contract]
  have "chunk_ids_dense example_system" by (rule conjunct1)
  then have "map chunk_id (chunks (metadata example_system)) = [0, 1]
             \<and> length (xb (index example_system)) = 2"
    by (simp add: chunk_ids_dense_def example_system_def)
  with r example_contract show ?thesis by simp
qed

text \<open>
  Claim C2. In a reachable corpus with \<open>n\<close> stored rows, when the embedder returns one
  vector of the index's dimension for the query, \<open>search\<close> returns exactly \<open>min k n\<close>
  results. They are the entries of distinct stored rows, each with its squared Euclidean
  distance between the normalised query and the stored (normalised) row, in ascending order
  of distance, and no row left out is nearer than a row returned. With fewer than \<open>k\<close> rows
  all rows are returned, and with no row the result is the empty list, not an error.
\<close>

theorem search_returns_nearest:
  assumes reach: "reachable env (s, fs)" and emb: "embedder_contract env"
    and q: "encode env [query] = Inr [v]" and dim: "length v = idx_d (index s)"
  shows "\<exists>hits. index_search (index s) (normalize_L2 [v]) k
              = Inr [hits @ replicate (k - length hits) (- 1, FLT_MAX)]
          \<and> search env s query k =
            Inr (map (\<lambda>(i, dd). \<lparr>res_text = chunk_text (chunks (metadata s) ! nat i),
                          res_document_id = document_id (chunks (metadata s) ! nat i),
                          score = float_round env (1 / float_round env (1 + dd))\<rparr>) hits)
          \<and> length hits = min k (length (xb (index s)))
          \<and> distinct (map fst hits)
          \<and> sorted (map snd hits)
          \<and> (\<forall>(i, dd)\<in>set hits. 0 \<le> i \<and> i < int (length (xb (index s)))
                \<and> dd = fvec_L2sqr (fvec_renorm_L2 v) (xb (index s) ! nat i))
          \<and> (\<forall>j<length (xb (index s)). int j \<notin> fst ` set hits \<longrightarrow>
                (\<forall>(i, dd)\<in>set hits. dd \<le> fvec_L2sqr (fvec_renorm_L2 v) (xb (index s) ! j)))
          \<and> list_all unit_or_zero (xb (index s))
          \<and> unit_or_zero (fvec_renorm_L2 v)
          \<and> (xb (index s) = [] \<longrightarrow> search env s query k = Inr [])"
proof -
  define hits where "hits = take k (sort_key snd (exhaustive_L2sqr (xb (index s)) (fvec_renorm_L2 v)))"
  from reachable_chunk_ids_dense[OF reach emb]
  have len: "length (chunks (metadata s)) = length (xb (index s))"
    by (simp add: chunk_ids_dense_def)
  have 1: "search env s query k =
            Inr (map (\<lambda>(i, dd). \<lparr>res_text = chunk_text (chunks (metadata s) ! nat i),
                          res_document_id = document_id (chunks (metadata s) ! nat i),
                          score = float_round env (1 / float_round env (1 + dd))\<rparr>) hits)"
    unfolding search_consistent[OF q dim len] hits_def score_of_distance_def by (rule refl)
  have 0: "index_search (index s) (normalize_L2 [v]) k
              = Inr [hits @ replicate (k - length hits) (- 1, FLT_MAX)]"
    unfolding index_search_single[OF dim] hits_def by (simp only: knn_padding)
  have 2: "length hits = min k (length (xb (index s)))"
    unfolding hits_def by (simp add: length_exhaustive)
  have 3: "distinct (map fst hits)" unfolding hits_def by (rule distinct_labels)
  have 4: "sorted (map snd hits)" unfolding hits_def by (rule sorted_nearest)
  have 5: "\<forall>(i, dd)\<in>set hits. 0 \<le> i \<and> i < int (length (xb (index s)))
                \<and> dd = fvec_L2sqr (fvec_renorm_L2 v) (xb (index s) ! nat i)"
  proof
    fix p assume "p \<in> set hits"
    from nearest_subset[OF this[unfolded hits_def]] obtain m where
      "m < length (xb (index s))" "p = (int m, fvec_L2sqr (fvec_renorm_L2 v) (xb (index s) ! m))"
      by blast
    then show "case p of (i, dd) \<Rightarrow> 0 \<le> i \<and> i < int (length (xb (index s)))
                \<and> dd = fvec_L2sqr (fvec_renorm_L2 v) (xb (index s) ! nat i)"
      by simp
  qed
  have 6: "\<forall>j<length (xb (index s)). int j \<notin> fst ` set hits \<longrightarrow>
                (\<forall>(i, dd)\<in>set hits. dd \<le> fvec_L2sqr (fvec_renorm_L2 v) (xb (index s) ! j))"
  proof (intro allI impI ballI)
    fix j p assume j: "j < length (xb (index s))" and out: "int j \<notin> fst ` set hits"
      and p: "p \<in> set hits"
    from nearest_bound[OF j out[unfolded hits_def] p[unfolded hits_def]]
    show "case p of (i, dd) \<Rightarrow> dd \<le> fvec_L2sqr (fvec_renorm_L2 v) (xb (index s) ! j)"
      by (cases p) simp
  qed
  from reachable_rows_normalized[OF reach]
  have 7: "list_all unit_or_zero (xb (index s))" by simp
  have 8: "unit_or_zero (fvec_renorm_L2 v)" by (rule renorm_unit_or_zero)
  have 9: "xb (index s) = [] \<longrightarrow> search env s query k = Inr []"
  proof
    assume "xb (index s) = []"
    with 2 have "hits = []" by simp
    with 1 show "search env s query k = Inr []" by simp
  qed
  from 0 1 2 3 4 5 6 7 8 9 show ?thesis by blast
qed

theorem search_returns_nearest_witness:
  "reachable example_env (example_system, save example_system empty_dir)
   \<and> embedder_contract example_env
   \<and> encode example_env [''a''] = Inr [[1, 0]]
   \<and> length [1, 0 :: real] = idx_d (index example_system)
   \<and> (\<exists>hits. search example_env example_system ''a'' 1 =
            Inr (map (\<lambda>(i, dd). \<lparr>res_text = chunk_text (chunks (metadata example_system) ! nat i),
                          res_document_id = document_id (chunks (metadata example_system) ! nat i),
                          score = float_round example_env (1 / float_round example_env (1 + dd))\<rparr>) hits)
          \<and> length hits = min 1 (length (xb (index example_system))))"
proof -
  have d: "length [1, 0 :: real] = idx_d (index example_system)"
    by (simp add: example_system_def)
  from search_returns_nearest[OF example_reachable_system example_contract example_query d, of 1]
  have "\<exists>hits. search example_env example_system ''a'' 1 =
            Inr (map (\<lambda>(i, dd). \<lparr>res_text = chunk_text (chunks (metadata example_system) ! nat i),
                          res_document_id = document_id (chunks (metadata example_system) ! nat i),
                          score = float_round example_env (1 / float_round example_env (1 + dd))\<rparr>) hits)
          \<and> length hits = min 1 (length (xb (index example_system)))"
    by blast
  with example_reachable_system example_contract example_query d show ?thesis by blast
qed

text \<open>
  Claim C3. When the embedder raises on the chunks of the document, \<open>add_document\<close> raises
  that error and leaves the object and the data directory as they were: the same index
  rows, the same chunk records, the same documents, and no record for the new id.
\<close>

theorem add_document_embedder_failure:
  assumes "encode env (split_text env document_text) = Inl e"
  shows "\<exists>s' fs'. add_document env uuid4 now document_text summ (s, fs) = (Inl e, (s', fs'))
           \<and> s' = s \<and> fs' = fs
           \<and> length (xb (index s')) = length (xb (index s))
           \<and> chunks (metadata s') = chunks (metadata s)
           \<and> documents (metadata s') = documents (metadata s)
           \<and> get_all_documents s' = get_all_documents s
           \<and> get_document_by_id s' uuid4 = get_document_by_id s uuid4"
  using assms by (simp add: add_document_def Let_def)

theorem add_document_embedder_failure_witness:
  "encode failing_env (split_text failing_env ''ab'') = Inl EmbedderFailure
   \<and> add_document failing_env ''doc-2'' ''2025-01-02'' ''ab'' ''never stored''
         (example_system, save example_system empty_dir)
       = (Inl EmbedderFailure, (example_system, save example_system empty_dir))"
proof -
  have h: "encode failing_env (split_text failing_env ''ab'') = Inl EmbedderFailure"
    by (simp add: failing_env_def)
  from add_document_embedder_failure[OF h, of "''doc-2''" "''2025-01-02''" "''never stored''"
      example_system "save example_system empty_dir"] h
  show ?thesis by blast
qed

text \<open>
  Claim C4, as the code behaves. \<open>search\<close> does not raise when the index returns a label
  without a chunk record. In any state of the two stores, when the embedder returns one
  vector of the index's dimension for the query, the result is the list of entries for
  exactly those slots whose label \<open>idx\<close> satisfies \<open>0 \<le> idx < len(chunks)\<close>, in the order of
  the index; every other slot is left out silently.
\<close>

theorem search_omits_rows_without_metadata:
  assumes q: "encode env [query] = Inr [v]" and dim: "length v = idx_d (index s)"
  shows "\<exists>row. index_search (index s) (normalize_L2 [v]) k = Inr [row]
           \<and> search env s query k =
               Inr (map (\<lambda>(i, dd). \<lparr>res_text = chunk_text (chunks (metadata s) ! nat i),
                          res_document_id = document_id (chunks (metadata s) ! nat i),
                          score = float_round env (1 / float_round env (1 + dd))\<rparr>)
                      (filter (\<lambda>(i, dd). 0 \<le> i \<and> i < int (length (chunks (metadata s)))) row))"
proof -
  have 1: "index_search (index s) (normalize_L2 [v]) k
           = Inr [knn_L2sqr (xb (index s)) (fvec_renorm_L2 v) k]"
    using dim by (simp add: index_search_def normalize_L2_def length_renorm)
  have 2: "search env s query k =
               Inr (map (\<lambda>(i, dd). \<lparr>res_text = chunk_text (chunks (metadata s) ! nat i),
                          res_document_id = document_id (chunks (metadata s) ! nat i),
                          score = float_round env (1 / float_round env (1 + dd))\<rparr>)
                      (filter (\<lambda>(i, dd). 0 \<le> i \<and> i < int (length (chunks (metadata s))))
                         (knn_L2sqr (xb (index s)) (fvec_renorm_L2 v) k)))"
    unfolding search_unfold[OF q dim] search_loop_eq score_of_distance_def by (rule refl)
  from 1 2 show ?thesis by blast
qed

theorem search_omits_rows_without_metadata_witness:
  "encode example_env [''a''] = Inr [[1, 0]]
   \<and> length [1, 0 :: real] = idx_d (index orphan_row_system)
   \<and> (\<exists>row. index_search (index orphan_row_system) (normalize_L2 [[1, 0]]) 1 = Inr [row]
           \<and> search example_env orphan_row_system ''a'' 1 =
               Inr (map (\<lambda>(i, dd). \<lparr>res_text = chunk_text (chunks (metadata orphan_row_system) ! nat i),
                          res_document_id = document_id (chunks (metadata orphan_row_system) ! nat i),
                          score = float_round example_env (1 / float_round example_env (1 + dd))\<rparr>)
                      (filter (\<lambda>(i, dd). 0 \<le> i \<and> i < int (length (chunks (metadata orphan_row_system)))) row)))"
proof -
  have d: "length [1, 0 :: real] = idx_d (index orphan_row_system)"
    by (simp add: orphan_row_system_def)
  from search_omits_rows_without_metadata[OF example_query d, of 1] example_query d
  show ?thesis by blast
qed

text \<open>
  Claim C4 as stated fails: on the object constructed from a data directory whose index
  file holds one row and whose metadata file holds no chunk record, the index returns
  row 0 at distance 0 for the query, no chunk record exists for it, and \<open>search\<close> returns
  the empty list instead of raising.
\<close>

theorem search_orphan_row_counterexample:
  "RAGSystem_init example_env
     \<lparr>faiss_index_bin = Some \<lparr>idx_d = 2, xb = [[1, 0]]\<rparr>,
      document_metadata_json = Some \<lparr>chunks = [], documents = []\<rparr>\<rparr> = Inr orphan_row_system
   \<and> index_search (index orphan_row_system) (normalize_L2 [[1, 0]]) 1 = Inr [[(0, 0)]]
   \<and> chunks (metadata orphan_row_system) = []
   \<and> search example_env orphan_row_system ''a'' 1 = Inr []"
  by (simp add: search_def example_env_def orphan_row_system_def index_search_def
      faiss_normalize_L2_def normalize_L2_def knn_L2sqr_def exhaustive_L2sqr_def fvec_L2sqr_def
      upt_rec Let_def RAGSystem_init_def)

text \<open>
  Claim C5, as the code behaves. For the empty text, which the splitter turns into no
  chunk, \<open>add_document\<close> fails and returns no id, with an embedder that keeps its contract
  of one vector per text: when the embedder returns its array for no text,
  \<open>faiss.normalize_L2\<close> raises \<open>IndexError\<close> on it (an error of the embedder propagates
  likewise). The call leaves the object and the data directory as they were: no document
  record, no index row and no chunk record is added.
\<close>

theorem add_document_empty_text:
  assumes "split_text env [] = []" and "embedder_contract env"
  shows "\<exists>e s' fs'. add_document env uuid4 now [] summ (s, fs) = (Inl e, (s', fs'))
           \<and> s' = s \<and> fs' = fs
           \<and> xb (index s') = xb (index s)
           \<and> chunks (metadata s') = chunks (metadata s)
           \<and> documents (metadata s') = documents (metadata s)
           \<and> get_document_by_id s' uuid4 = get_document_by_id s uuid4
           \<and> (encode env [] = Inr [] \<longrightarrow> e = IndexError)"
proof (cases "encode env []")
  case (Inl e)
  with assms(1) show ?thesis by (simp add: add_document_def Let_def)
next
  case (Inr vs)
  with assms(2) have "length vs = length ([] :: string list)"
    unfolding embedder_contract_def by blast
  then have "vs = []" by simp
  with Inr assms(1) show ?thesis
    by (simp add: add_document_def Let_def faiss_normalize_L2_def)
qed

theorem add_document_empty_text_witness:
  "split_text example_env [] = [] \<and> embedder_contract example_env
   \<and> encode example_env [] = Inr []
   \<and> add_document example_env ''doc-0'' ''2025-01-01'' [] ''empty''
         (example_system, save example_system empty_dir)
       = (Inl IndexError, (example_system, save example_system empty_dir))"
proof -
  have a: "split_text example_env [] = []" and b: "encode example_env [] = Inr []"
    by (simp_all add: example_env_def)
  from add_document_empty_text[OF a example_contract, of "''doc-0''" "''2025-01-01''" "''empty''"
      example_system "save example_system empty_dir"] b
  have "add_document example_env ''doc-0'' ''2025-01-01'' [] ''empty''
         (example_system, save example_system empty_dir)
       = (Inl IndexError, (example_system, save example_system empty_dir))"
    by auto
  with a b example_contract show ?thesis by simp
qed

text \<open>
  Claim C5 as stated fails: on a freshly constructed corpus, with a splitter that turns the
  empty text into no chunk and an embedder that returns its array for no text, the call
  raises \<open>IndexError\<close> and leaves the corpus as it was, without a document record.
\<close>

theorem add_document_empty_text_counterexample:
  "split_text example_env [] = [] \<and> encode example_env [] = Inr []
   \<and> add_document example_env ''doc-0'' ''2025-01-01'' [] ''empty'' (fresh_system, empty_dir)
       = (Inl IndexError, (fresh_system, empty_dir))
   \<and> get_all_documents fresh_system = []"
  by (simp add: add_document_def example_env_def Let_def faiss_normalize_L2_def
      get_all_documents_def fresh_system_def)

text \<open>
  Claim C7. Constructing the object again from the data directory after \<open>_save\<close> gives the
  saved object back: the same documents in the same order, the same chunks for every
  document id, and the same result of \<open>search\<close> for every query and \<open>k\<close>. In particular the
  data directory that a successful \<open>add_document\<close> leaves reloads to the object it leaves.
\<close>

theorem save_load_round_trip:
  "(\<exists>s'. RAGSystem_init env (save s fs) = Inr s'
      \<and> get_all_documents s' = get_all_documents s
      \<and> (\<forall>i. get_document_chunks s' i = get_document_chunks s i)
      \<and> (\<forall>query k. search env s' query k = search env s query k))
   \<and> (\<forall>u now dtext summ i s1 fs1.
         add_document env u now dtext summ (s, fs) = (Inr i, (s1, fs1))
           \<longrightarrow> RAGSystem_init env fs1 = Inr s1)"
proof
  show "\<exists>s'. RAGSystem_init env (save s fs) = Inr s'
      \<and> get_all_documents s' = get_all_documents s
      \<and> (\<forall>i. get_document_chunks s' i = get_document_chunks s i)
      \<and> (\<forall>query k. search env s' query k = search env s query k)"
    by (simp add: init_after_save)
  show "\<forall>u now dtext summ i s1 fs1.
         add_document env u now dtext summ (s, fs) = (Inr i, (s1, fs1))
           \<longrightarrow> RAGSystem_init env fs1 = Inr s1"
  proof (intro allI impI)
    fix u now dtext summ i s1 fs1
    assume "add_document env u now dtext summ (s, fs) = (Inr i, (s1, fs1))"
    from add_document_success[OF this] have "fs1 = save s1 fs" by blast
    then show "RAGSystem_init env fs1 = Inr s1" by (simp add: init_after_save)
  qed
qed

theorem save_load_round_trip_witness:
  "add_document example_env ''doc-1'' ''2025-01-01'' ''ab'' ''two chunks'' (fresh_system, empty_dir)
     = (Inr ''doc-1'', (example_system, save example_system empty_dir))
   \<and> RAGSystem_init example_env (save example_system empty_dir) = Inr example_system
   \<and> search example_env (projr (RAGSystem_init example_env (save example_system empty_dir))) ''a'' 3
       = search example_env example_system ''a'' 3"
proof -
  from save_load_round_trip[of example_env fresh_system empty_dir] example_add
  have "RAGSystem_init example_env (save example_system empty_dir) = Inr example_system"
    by blast
  with example_add show ?thesis by simp
qed

text \<open>
  Claim C8. After a successful \<open>add_document\<close> whose new id is not the document id of an
  older chunk, \<open>get_document_chunks\<close> of the returned id is exactly the list of the \<open>n\<close>
  chunk records made from the \<open>n\<close> chunks of the text, in chunking order, with the positions
  \<open>0, 1, ..., n - 1\<close>; a later \<open>add_document\<close> under another id does not change it.
\<close>

theorem get_document_chunks_after_ingest:
  assumes step: "add_document env u now dtext summ (s, fs) = (Inr i, (s', fs'))"
    and fresh: "u \<notin> document_id ` set (chunks (metadata s))"
  shows "i = u
     \<and> get_document_chunks s' i =
         map (\<lambda>(j, c). \<lparr>chunk_text = c, document_id = i,
                chunk_id = length (chunks (metadata s)) + j, position = j\<rparr>)
           (enumerate 0 (split_text env dtext))
     \<and> length (get_document_chunks s' i) = length (split_text env dtext)
     \<and> map chunk_text (get_document_chunks s' i) = split_text env dtext
     \<and> map position (get_document_chunks s' i) = [0..<length (split_text env dtext)]
     \<and> (\<forall>u2 now2 dtext2 summ2 r2 s2 fs2.
           u2 \<noteq> i \<and> add_document env u2 now2 dtext2 summ2 (s', fs') = (r2, (s2, fs2))
             \<longrightarrow> get_document_chunks s2 i = get_document_chunks s' i)"
proof -
  from add_document_success[OF step] obtain vs where
    iu: "i = u" and
    cs: "chunks (metadata s') = chunks (metadata s) @
                 map (\<lambda>(j, c). \<lparr>chunk_text = c, document_id = u,
                        chunk_id = length (chunks (metadata s)) + j, position = j\<rparr>)
                   (enumerate 0 (split_text env dtext))"
    by blast
  have got: "get_document_chunks s' i =
         map (\<lambda>(j, c). \<lparr>chunk_text = c, document_id = i,
                chunk_id = length (chunks (metadata s)) + j, position = j\<rparr>)
           (enumerate 0 (split_text env dtext))"
    unfolding get_document_chunks_def cs filter_append iu
    by (simp add: filter_unknown_id[OF fresh] filter_new_chunks_same)
  have len: "length (get_document_chunks s' i) = length (split_text env dtext)"
    unfolding got by simp
  have texts: "map chunk_text (get_document_chunks s' i) = split_text env dtext"
    unfolding got by (simp add: comp_def case_prod_unfold flip: map_snd_enumerate[of 0])
  have pos: "map position (get_document_chunks s' i) = [0..<length (split_text env dtext)]"
    unfolding got using map_position_new[of i _ 0 "split_text env dtext"] by simp
  have later: "\<forall>u2 now2 dtext2 summ2 r2 s2 fs2.
           u2 \<noteq> i \<and> add_document env u2 now2 dtext2 summ2 (s', fs') = (r2, (s2, fs2))
             \<longrightarrow> get_document_chunks s2 i = get_document_chunks s' i"
    using get_document_chunks_later_ingest by blast
  from iu got len texts pos later show ?thesis by blast
qed

theorem get_document_chunks_after_ingest_witness:
  "add_document example_env ''doc-1'' ''2025-01-01'' ''ab'' ''two chunks'' (fresh_system, empty_dir)
     = (Inr ''doc-1'', (example_system, save example_system empty_dir))
   \<and> ''doc-1'' \<notin> document_id ` set (chunks (metadata fresh_system))
   \<and> map position (get_document_chunks example_system ''doc-1'') = [0..<2]"
proof -
  have f: "''doc-1'' \<notin> document_id ` set (chunks (metadata fresh_system))"
    by (simp add: fresh_system_def)
  have two: "length (split_text example_env ''ab'') = 2" by (simp add: example_env_def)
  from get_document_chunks_after_ingest[OF example_add f]
  have "map position (get_document_chunks example_system ''doc-1'')
        = [0..<length (split_text example_env ''ab'')]" by blast
  with example_add f two show ?thesis by simp
qed

text \<open>
  Claim C9. When two stored rows \<open>i < j\<close> are at the same distance from the query, row \<open>j\<close>
  appears among the ranked rows behind the results of \<open>search\<close> only if row \<open>i\<close> appears
  before it: ties are broken by insertion order.
\<close>

theorem search_tie_break_by_insertion_order:
  assumes reach: "reachable env (s, fs)" and emb: "embedder_contract env"
    and q: "encode env [query] = Inr [v]" and dim: "length v = idx_d (index s)"
    and ij: "i < j" and j: "j < length (xb (index s))"
    and tie: "fvec_L2sqr (fvec_renorm_L2 v) (xb (index s) ! i)
              = fvec_L2sqr (fvec_renorm_L2 v) (xb (index s) ! j)"
  shows "\<exists>hits. index_search (index s) (normalize_L2 [v]) k
              = Inr [hits @ replicate (k - length hits) (- 1, FLT_MAX)]
          \<and> search env s query k =
            Inr (map (\<lambda>(i, dd). \<lparr>res_text = chunk_text (chunks (metadata s) ! nat i),
                          res_document_id = document_id (chunks (metadata s) ! nat i),
                          score = float_round env (1 / float_round env (1 + dd))\<rparr>) hits)
          \<and> (\<forall>pj<length hits. fst (hits ! pj) = int j \<longrightarrow>
                (\<exists>pi<pj. fst (hits ! pi) = int i))"
proof -
  define hits where "hits = take k (sort_key snd (exhaustive_L2sqr (xb (index s)) (fvec_renorm_L2 v)))"
  from reachable_chunk_ids_dense[OF reach emb]
  have len: "length (chunks (metadata s)) = length (xb (index s))"
    by (simp add: chunk_ids_dense_def)
  have 1: "search env s query k =
            Inr (map (\<lambda>(i, dd). \<lparr>res_text = chunk_text (chunks (metadata s) ! nat i),
                          res_document_id = document_id (chunks (metadata s) ! nat i),
                          score = float_round env (1 / float_round env (1 + dd))\<rparr>) hits)"
    unfolding search_consistent[OF q dim len] hits_def score_of_distance_def by (rule refl)
  have 0: "index_search (index s) (normalize_L2 [v]) k
              = Inr [hits @ replicate (k - length hits) (- 1, FLT_MAX)]"
    unfolding index_search_single[OF dim] hits_def by (simp only: knn_padding)
  have 2: "\<forall>pj<length hits. fst (hits ! pj) = int j \<longrightarrow> (\<exists>pi<pj. fst (hits ! pi) = int i)"
    unfolding hits_def using tie_earlier_row_first[OF ij j tie] by blast
  from 0 1 2 show ?thesis by blast
qed

theorem search_tie_break_by_insertion_order_witness:
  "reachable example_env (tie_system, save tie_system empty_dir)
   \<and> embedder_contract example_env
   \<and> encode example_env [''a''] = Inr [[1, 0]]
   \<and> length [1, 0 :: real] = idx_d (index tie_system)
   \<and> (0 :: nat) < 1 \<and> 1 < length (xb (index tie_system))
   \<and> fvec_L2sqr (fvec_renorm_L2 [1, 0]) (xb (index tie_system) ! 0)
       = fvec_L2sqr (fvec_renorm_L2 [1, 0]) (xb (index tie_system) ! 1)
   \<and> (\<exists>hits. index_search (index tie_system) (normalize_L2 [[1, 0]]) 2
              = Inr [hits @ replicate (2 - length hits) (- 1, FLT_MAX)]
          \<and> search example_env tie_system ''a'' 2 =
            Inr (map (\<lambda>(i, dd). \<lparr>res_text = chunk_text (chunks (metadata tie_system) ! nat i),
                          res_document_id = document_id (chunks (metadata tie_system) ! nat i),
                          score = float_round example_env (1 / float_round example_env (1 + dd))\<rparr>) hits)
          \<and> (\<forall>pj<length hits. fst (hits ! pj) = int 1 \<longrightarrow>
                (\<exists>pi<pj. fst (hits ! pi) = int 0)))"
proof -
  have d: "length [1, 0 :: real] = idx_d (index tie_system)"
    by (simp add: tie_system_def)
  have ij: "(0 :: nat) < 1" by simp
  have j: "1 < length (xb (index tie_system))" by (simp add: tie_system_def)
  have t: "fvec_L2sqr (fvec_renorm_L2 [1, 0]) (xb (index tie_system) ! 0)
       = fvec_L2sqr (fvec_renorm_L2 [1, 0]) (xb (index tie_system) ! 1)"
    by (simp add: tie_system_def)
  from search_tie_break_by_insertion_order[OF tie_reachable example_contract example_query d ij j t, of 2]
    tie_reachable example_contract example_query d ij j t
  show ?thesis by blast
qed

text \<open>
  Claim C10. \<open>get_document_chunks\<close> of an id that is the document id of no stored chunk
  returns the empty list (in particular for every id on a corpus without chunks).
\<close>

theorem get_document_chunks_unknown_id:
  assumes "i \<notin> document_id ` set (chunks (metadata s))"
  shows "get_document_chunks s i = []"
  unfolding get_document_chunks_def using assms by (rule filter_unknown_id)

theorem get_document_chunks_unknown_id_witness:
  "''nobody'' \<notin> document_id ` set (chunks (metadata example_system))
   \<and> get_document_chunks example_system ''nobody'' = []
   \<and> get_document_chunks fresh_system ''doc-1'' = []"
proof -
  have a: "''nobody'' \<notin> document_id ` set (chunks (metadata example_system))"
    by (simp add: example_system_def)
  have b: "''doc-1'' \<notin> document_id ` set (chunks (metadata fresh_system))"
    by (simp add: fresh_system_def)
  from get_document_chunks_unknown_id[OF a] get_document_chunks_unknown_id[OF b] a
  show ?thesis by simp
qed

end
